theory Spec2Isabelle
  imports Main
begin

chapter \<open>The attribute flags and schema text of type-bridge\<close>

text \<open>
  A shallow embedding of \<open>type_bridge/attribute.py\<close>: the \<open>Card\<close> marker, the
  \<open>AttributeFlags\<close> dataclass with its TypeQL annotations, the \<open>Flag\<close> constructor and
  the schema text of the \<open>Attribute\<close> classes; then the two filter syntaxes, which the
  specification describes and the source files do not contain; then the properties the
  specification states about all of them.
\<close>

section \<open>Python values used by \<open>type_bridge/attribute.py\<close>\<close>

text \<open>
  A raised exception is kept as a value: the name of its class and its message.
  A function of the source that can raise returns \<open>py_exception + 'a\<close>, with \<open>Inl\<close>
  for the raise.
\<close>

datatype py_exception = Raised (exc_type: string) (exc_message: string)

fun raises :: "py_exception + 'a \<Rightarrow> string \<Rightarrow> bool" where
  "raises (Inl e) cls = (exc_type e = cls)"
| "raises (Inr v) cls = False"

text \<open>
  \<open>str(n)\<close> for a Python \<open>int\<close>, as the f-strings of the source format it: decimal
  digits, with a leading minus sign for a negative number.
\<close>

fun str_nat :: "nat \<Rightarrow> string" where
  "str_nat n = (if n < 10 then [''0123456789'' ! n]
                else str_nat (n div 10) @ [''0123456789'' ! (n mod 10)])"

definition str_int :: "int \<Rightarrow> string" where
  "str_int i = (if i < 0 then ''-'' @ str_nat (nat (- i)) else str_nat (nat i))"

section \<open>The \<open>Card\<close> marker\<close>

text \<open>
  A \<open>Card\<close> instance has the two attributes \<open>min\<close> and \<open>max\<close>, each an \<open>int\<close> or
  \<open>None\<close>. \<open>Card_init args mn mx\<close> is \<open>Card(*args, min=mn, max=mx)\<close>.
\<close>

record Card =
  Card_min :: "int option"
  Card_max :: "int option"

definition Card_init :: "int list \<Rightarrow> int option \<Rightarrow> int option \<Rightarrow> py_exception + Card" where
  "Card_init args mn mx =
     (if args \<noteq> [] then
        (if length args = 1 then Inr \<lparr>Card_min = Some (args ! 0), Card_max = mx\<rparr>
         else if length args = 2 then
           Inr \<lparr>Card_min = Some (args ! 0), Card_max = Some (args ! 1)\<rparr>
         else Inl (Raised ''ValueError'' ''Card accepts at most 2 positional arguments''))
      else
        (if mn = None \<and> mx \<noteq> None then Inr \<lparr>Card_min = Some 0, Card_max = mx\<rparr>
         else Inr \<lparr>Card_min = mn, Card_max = mx\<rparr>))"

section \<open>\<open>AttributeFlags\<close> and its annotations\<close>

record AttributeFlags =
  is_key :: bool
  is_unique :: bool
  card_min :: "int option"
  card_max :: "int option"
  has_explicit_card :: bool

text \<open>\<open>AttributeFlags()\<close>: every field at its dataclass default.\<close>

definition AttributeFlags_default :: AttributeFlags where
  "AttributeFlags_default =
     \<lparr>is_key = False, is_unique = False, card_min = None, card_max = None,
      has_explicit_card = False\<rparr>"

definition to_typeql_annotations :: "AttributeFlags \<Rightarrow> string list" where
  "to_typeql_annotations self =
     (let annotations = [];
          annotations = (if is_key self then annotations @ [''@key''] else annotations);
          annotations = (if is_unique self then annotations @ [''@unique''] else annotations);
          should_output_card = (card_min self \<noteq> None \<or> card_max self \<noteq> None)
      in if should_output_card \<and> \<not> is_key self then
           (let is_default_card = (card_min self = Some 1 \<and> card_max self = Some 1)
            in if \<not> (is_unique self \<and> is_default_card) then
                 (let min_val = (case card_min self of Some m \<Rightarrow> m | None \<Rightarrow> 0)
                  in case card_max self of
                       Some mx \<Rightarrow>
                         annotations @ [''@card('' @ str_int min_val @ ''..'' @ str_int mx @ '')'']
                     | None \<Rightarrow> annotations @ [''@card('' @ str_int min_val @ ''..)''])
               else annotations)
         else annotations)"

section \<open>The \<open>Flag\<close> constructor\<close>

text \<open>
  The arguments \<open>Flag(*annotations)\<close> is written for: the \<open>Key\<close> marker, the \<open>Unique\<close>
  marker, a \<open>Card\<close> instance as \<open>Card.__init__\<close> builds it (holding \<open>min\<close> and \<open>max\<close>),
  or any other ordinary object, one for which \<open>isinstance(ann, Card)\<close> is \<open>False\<close>
  (\<open>Other\<close>, with a label that tells two such objects apart). Objects on which the
  tests of the loop themselves fail come further down, with \<open>Flag_objects\<close>.
\<close>

datatype marker = Key | Unique | CardInst Card | Other string

fun isinstance_Card :: "marker \<Rightarrow> bool" where
  "isinstance_Card (CardInst c) = True"
| "isinstance_Card m = False"

text \<open>
  One turn of the loop \<open>for ann in annotations\<close>, on the pair of the local variables
  \<open>flags\<close> and \<open>has_card\<close>.
\<close>

fun Flag_step :: "AttributeFlags \<times> bool \<Rightarrow> marker \<Rightarrow> AttributeFlags \<times> bool" where
  "Flag_step (flags, has_card) Key = (flags\<lparr>is_key := True\<rparr>, has_card)"
| "Flag_step (flags, has_card) Unique = (flags\<lparr>is_unique := True\<rparr>, has_card)"
| "Flag_step (flags, has_card) (CardInst ann) =
     (flags\<lparr>card_min := Card_min ann, card_max := Card_max ann, has_explicit_card := True\<rparr>,
      True)"
| "Flag_step (flags, has_card) (Other x) = (flags, has_card)"

definition Flag :: "marker list \<Rightarrow> AttributeFlags" where
  "Flag annotations =
     (case foldl Flag_step (AttributeFlags_default, False) annotations of
        (flags, has_card) \<Rightarrow>
          if is_key flags \<and> \<not> has_card then flags\<lparr>card_min := Some 1, card_max := Some 1\<rparr>
          else flags)"

text \<open>
  \<open>Flag\<close> is annotated \<open>*annotations: Any\<close>, so it can receive objects on which the loop
  raises. \<open>py_argument\<close> describes an argument by what the loop observes of it:
  \<^item> \<open>Plain m\<close>: one of the arguments above, on which no test and no read fails;
  \<^item> \<open>CardLike rmin rmax\<close>: an object for which \<open>isinstance(ann, Card)\<close> is \<open>True\<close>
    without \<open>Card.__init__\<close> having set it up (an instance of a subclass whose
    \<open>__init__\<close> does not call it, or one whose attributes were deleted); \<open>rmin\<close> and
    \<open>rmax\<close> are what reading \<open>ann.min\<close> and \<open>ann.max\<close> gives, a value or a raise;
  \<^item> \<open>Opaque e\<close>: an object on which the test \<open>isinstance(ann, Card)\<close> itself raises
    \<open>e\<close> (its \<open>__class__\<close> lookup raises).
\<close>

datatype py_argument =
    Plain marker
  | CardLike "py_exception + int option" "py_exception + int option"
  | Opaque py_exception

text \<open>
  One turn of the loop on such an argument. In the \<open>isinstance\<close> branch \<open>ann.min\<close> is
  read first and \<open>ann.max\<close> second; a raise leaves the function at once.
\<close>

fun Flag_step_object ::
  "AttributeFlags \<times> bool \<Rightarrow> py_argument \<Rightarrow> py_exception + AttributeFlags \<times> bool" where
  "Flag_step_object (flags, has_card) (Plain m) = Inr (Flag_step (flags, has_card) m)"
| "Flag_step_object (flags, has_card) (CardLike rmin rmax) =
     (case rmin of
        Inl e \<Rightarrow> Inl e
      | Inr mn \<Rightarrow>
          (case rmax of
             Inl e \<Rightarrow> Inl e
           | Inr mx \<Rightarrow>
               Inr (flags\<lparr>card_min := mn, card_max := mx, has_explicit_card := True\<rparr>, True)))"
| "Flag_step_object (flags, has_card) (Opaque e) = Inl e"

text \<open>The loop \<open>for ann in annotations\<close>, stopping at the first raise.\<close>

fun Flag_loop ::
  "AttributeFlags \<times> bool \<Rightarrow> py_argument list \<Rightarrow> py_exception + AttributeFlags \<times> bool" where
  "Flag_loop state [] = Inr state"
| "Flag_loop state (ann # annotations) =
     (case Flag_step_object state ann of
        Inl e \<Rightarrow> Inl e
      | Inr state' \<Rightarrow> Flag_loop state' annotations)"

text \<open>\<open>Flag(*annotations)\<close> on arbitrary objects: the flags, or the exception raised.\<close>

definition Flag_objects :: "py_argument list \<Rightarrow> py_exception + AttributeFlags" where
  "Flag_objects annotations =
     (case Flag_loop (AttributeFlags_default, False) annotations of
        Inl e \<Rightarrow> Inl e
      | Inr (flags, has_card) \<Rightarrow>
          Inr (if is_key flags \<and> \<not> has_card
               then flags\<lparr>card_min := Some 1, card_max := Some 1\<rparr>
               else flags))"

text \<open>An argument on which no test and no attribute read of the loop raises.\<close>

fun loop_accepts :: "py_argument \<Rightarrow> bool" where
  "loop_accepts (Plain m) = True"
| "loop_accepts (CardLike (Inr mn) (Inr mx)) = True"
| "loop_accepts a = False"

text \<open>An argument that is not \<open>Key\<close>, not \<open>Unique\<close> and not an instance of \<open>Card\<close>.\<close>

fun is_other :: "py_argument \<Rightarrow> bool" where
  "is_other (Plain (Other x)) = True"
| "is_other a = False"

section \<open>Attribute classes\<close>

text \<open>
  \<open>str.lower()\<close> on a class name. Class names are modelled as ASCII strings, on which
  \<open>lower\<close> maps \<open>A\<close>..\<open>Z\<close> to \<open>a\<close>..\<open>z\<close> and leaves every other character alone.
\<close>

definition lower_char :: "char \<Rightarrow> char" where
  "lower_char c =
     (let n = (of_char c :: nat) in if 65 \<le> n \<and> n \<le> 90 then char_of (n + 32) else c)"

definition str_lower :: "string \<Rightarrow> string" where
  "str_lower s = map lower_char s"

text \<open>
  A class of the \<open>Attribute\<close> hierarchy, as attribute lookup on the class sees it:
  \<open>__name__\<close> and the class attributes \<open>value_type\<close>, \<open>abstract\<close>, \<open>_attr_name\<close>,
  \<open>_is_key\<close> and \<open>_supertype\<close>, each resolved along the base classes.
  \<open>value_type\<close> is only declared on \<open>Attribute\<close> (\<open>ClassVar[str]\<close> without a value),
  so it may be missing: \<open>None\<close> in \<open>cls_value_type\<close>. For \<open>_attr_name\<close> and
  \<open>_supertype\<close>, \<open>None\<close> is Python's \<open>None\<close>.
\<close>

record attribute_cls =
  cls_name :: string
  cls_value_type :: "string option"
  cls_abstract :: bool
  cls_attr_name :: "string option"
  cls_is_key :: bool
  cls_supertype :: "string option"

definition Attribute :: attribute_cls where
  "Attribute =
     \<lparr>cls_name = ''Attribute'', cls_value_type = None, cls_abstract = False,
      cls_attr_name = None, cls_is_key = False, cls_supertype = None\<rparr>"

text \<open>
  The body of a \<open>class\<close> statement: for each class attribute, \<open>Some v\<close> when the body
  assigns \<open>v\<close> to it and \<open>None\<close> when the body leaves it to the base class.
\<close>

record class_body =
  body_value_type :: "string option"
  body_abstract :: "bool option"
  body_attr_name :: "string option option"
  body_is_key :: "bool option"
  body_supertype :: "string option option"

definition empty_body :: class_body where
  "empty_body =
     \<lparr>body_value_type = None, body_abstract = None, body_attr_name = None,
      body_is_key = None, body_supertype = None\<rparr>"

text \<open>\<open>Attribute.__init_subclass__\<close>, run on the freshly created class \<open>cls\<close>.\<close>

definition init_subclass :: "attribute_cls \<Rightarrow> attribute_cls" where
  "init_subclass cls = cls\<lparr>cls_attr_name := Some (str_lower (cls_name cls))\<rparr>"

text \<open>
  \<open>class name(parent): body\<close>. The new class takes what its body assigns and inherits
  the rest; then \<open>__init_subclass__\<close> runs on it.
\<close>

definition new_class :: "attribute_cls \<Rightarrow> string \<Rightarrow> class_body \<Rightarrow> attribute_cls" where
  "new_class parent name body =
     init_subclass
       \<lparr>cls_name = name,
        cls_value_type =
          (case body_value_type body of Some v \<Rightarrow> Some v | None \<Rightarrow> cls_value_type parent),
        cls_abstract =
          (case body_abstract body of Some b \<Rightarrow> b | None \<Rightarrow> cls_abstract parent),
        cls_attr_name =
          (case body_attr_name body of Some n \<Rightarrow> n | None \<Rightarrow> cls_attr_name parent),
        cls_is_key =
          (case body_is_key body of Some b \<Rightarrow> b | None \<Rightarrow> cls_is_key parent),
        cls_supertype =
          (case body_supertype body of Some s \<Rightarrow> s | None \<Rightarrow> cls_supertype parent)\<rparr>"

text \<open>The five value classes of the module, each \<open>class X(Attribute)\<close> with its \<open>value_type\<close>.\<close>

definition String :: attribute_cls where
  "String = new_class Attribute ''String'' (empty_body\<lparr>body_value_type := Some ''string''\<rparr>)"

definition Long :: attribute_cls where
  "Long = new_class Attribute ''Long'' (empty_body\<lparr>body_value_type := Some ''long''\<rparr>)"

definition Double :: attribute_cls where
  "Double = new_class Attribute ''Double'' (empty_body\<lparr>body_value_type := Some ''double''\<rparr>)"

definition Boolean :: attribute_cls where
  "Boolean = new_class Attribute ''Boolean'' (empty_body\<lparr>body_value_type := Some ''boolean''\<rparr>)"

definition DateTime :: attribute_cls where
  "DateTime =
     new_class Attribute ''DateTime'' (empty_body\<lparr>body_value_type := Some ''datetime''\<rparr>)"

text \<open>\<open>cls._attr_name or cls.__name__.lower()\<close>: \<open>None\<close> and the empty string are falsy.\<close>

definition get_attribute_name :: "attribute_cls \<Rightarrow> string" where
  "get_attribute_name cls =
     (case cls_attr_name cls of
        Some n \<Rightarrow> if n \<noteq> [] then n else str_lower (cls_name cls)
      | None \<Rightarrow> str_lower (cls_name cls))"

text \<open>\<open>cls.value_type\<close> raises \<open>AttributeError\<close> when no class of the chain sets it.\<close>

definition get_value_type :: "attribute_cls \<Rightarrow> py_exception + string" where
  "get_value_type cls =
     (case cls_value_type cls of
        Some v \<Rightarrow> Inr v
      | None \<Rightarrow>
          Inl (Raised ''AttributeError''
                 (''type object '' @ [CHR 0x27] @ cls_name cls @ [CHR 0x27] @
                  '' has no attribute '' @ [CHR 0x27] @ ''value_type'' @ [CHR 0x27])))"

definition is_abstract :: "attribute_cls \<Rightarrow> bool" where
  "is_abstract cls = cls_abstract cls"

definition get_supertype :: "attribute_cls \<Rightarrow> string option" where
  "get_supertype cls = cls_supertype cls"

text \<open>
  \<open>to_schema_definition\<close>. The test \<open>if cls._supertype:\<close> is Python truthiness: it
  fails for \<open>None\<close> and for the empty string.
\<close>

definition to_schema_definition :: "attribute_cls \<Rightarrow> py_exception + string" where
  "to_schema_definition cls =
     (let attr_name = get_attribute_name cls in
      case get_value_type cls of
        Inl e \<Rightarrow> Inl e
      | Inr value_type \<Rightarrow>
          (let definition =
                 (case cls_supertype cls of
                    Some s \<Rightarrow>
                      if s \<noteq> [] then
                        ''attribute '' @ attr_name @ '' sub '' @ s @ '', value '' @ value_type
                      else ''attribute '' @ attr_name @ '', value '' @ value_type
                  | None \<Rightarrow> ''attribute '' @ attr_name @ '', value '' @ value_type);
               definition = (if cls_abstract cls then definition @ '', abstract'' else definition)
           in Inr (definition @ '';'')))"

text \<open>
  The grammar of the specification, written out:
  \<open>attribute <name>[, sub <supertype>], value <kind>[, abstract];\<close> with the supertype
  clause present iff a supertype is set and the abstract clause present iff the
  abstract flag is set.
\<close>

definition spec_schemaText :: "string \<Rightarrow> string option \<Rightarrow> string \<Rightarrow> bool \<Rightarrow> string" where
  "spec_schemaText name super kind abstract =
     ''attribute '' @ name @
     (case super of Some s \<Rightarrow> '', sub '' @ s | None \<Rightarrow> []) @
     '', value '' @ kind @
     (if abstract then '', abstract'' else []) @ '';''"

section \<open>Filter predicates: the two surface syntaxes\<close>

text \<open>
  The Expression AST and the Filter Compiler (the keyword-lookup parser, the typed
  role-field expressions and the filter entry point) are not among the source files; only
  a test that calls them is. Every definition of this section is therefore modelled from
  sections 4.4, 4.5 and 6 of the specification, and says so.
\<close>

text \<open>
  Modelled from the spec: the operator set \<open>{eq, neq, gt, gte, lt, lte, contains, like}\<close>
  of the Predicate, which is missing from the source files.
\<close>

datatype operator = Eq | Neq | Gt | Gte | Lt | Lte | Contains | Like

text \<open>
  Modelled from the spec: the name of each operator as it is written at the end of a
  keyword-lookup key, missing from the source files.
\<close>

fun operator_name :: "operator \<Rightarrow> string" where
  "operator_name Eq = ''eq''"
| "operator_name Neq = ''neq''"
| "operator_name Gt = ''gt''"
| "operator_name Gte = ''gte''"
| "operator_name Lt = ''lt''"
| "operator_name Lte = ''lte''"
| "operator_name Contains = ''contains''"
| "operator_name Like = ''like''"

text \<open>
  Modelled from the spec: the recognised operator suffixes of a keyword-lookup key,
  missing from the source files.
\<close>

definition operator_of_suffix :: "string \<Rightarrow> operator option" where
  "operator_of_suffix s =
     (if s = ''eq'' then Some Eq
      else if s = ''neq'' then Some Neq
      else if s = ''gt'' then Some Gt
      else if s = ''gte'' then Some Gte
      else if s = ''lt'' then Some Lt
      else if s = ''lte'' then Some Lte
      else if s = ''contains'' then Some Contains
      else if s = ''like'' then Some Like
      else None)"

text \<open>
  Modelled from the spec: the internal Predicate shape
  \<open>(pathSegments: ordered sequence of string, operator, operand: primitive value)\<close>,
  missing from the source files. The type of primitive values is a parameter.
\<close>

record 'v predicate =
  pathSegments :: "string list"
  operator :: operator
  operand :: 'v

text \<open>
  Modelled from the spec: cutting a flat key at its double underscores, missing from the
  source files. The key is read left to right; \<open>cur\<close> is the segment read so far; two
  underscores in a row end it.
\<close>

fun split_dunder_from :: "string \<Rightarrow> string \<Rightarrow> string list" where
  "split_dunder_from cur [] = [cur]"
| "split_dunder_from cur [c] = [cur @ [c]]"
| "split_dunder_from cur (c # d # rest) =
     (if c = CHR ''_'' \<and> d = CHR ''_'' then cur # split_dunder_from [] rest
      else split_dunder_from (cur @ [c]) (d # rest))"

text \<open>
  Modelled from the spec: the double-underscore-delimited segments of a whole key,
  missing from the source files.
\<close>

definition split_dunder :: "string \<Rightarrow> string list" where
  "split_dunder key = split_dunder_from [] key"

text \<open>
  Modelled from the spec: a name that a key can carry as one segment has no two
  underscores side by side (the delimiter of the key syntax); the test is missing from
  the source files.
\<close>

fun no_dunder :: "string \<Rightarrow> bool" where
  "no_dunder (c # d # rest) = ((c \<noteq> CHR ''_'' \<or> d \<noteq> CHR ''_'') \<and> no_dunder (d # rest))"
| "no_dunder s = True"

text \<open>
  Modelled from the spec: finding the first double underscore of a string, missing from
  the source files. The result is the text before it (after \<open>seen\<close>) and the text after
  it, or \<open>None\<close> when there is none.
\<close>

fun cut_at_dunder :: "string \<Rightarrow> string \<Rightarrow> (string \<times> string) option" where
  "cut_at_dunder seen [] = None"
| "cut_at_dunder seen [c] = None"
| "cut_at_dunder seen (c # d # rest) =
     (if c = CHR ''_'' \<and> d = CHR ''_'' then Some (seen, rest)
      else cut_at_dunder (seen @ [c]) (d # rest))"

text \<open>
  Modelled from the spec: a key is parsed right-to-left for the trailing operator; the
  parser is missing from the source files. Read from its right end, the key is cut at
  the first double underscore met, that is at the last one of the key; when the text
  after it is a known operator suffix, the result is the rest of the key and the
  operator, and \<open>None\<close> when no known operator suffix is present.
\<close>

definition trailing_operator :: "string \<Rightarrow> (string \<times> operator) option" where
  "trailing_operator key =
     (case cut_at_dunder [] (rev key) of
        None \<Rightarrow> None
      | Some (suffix_reversed, head_reversed) \<Rightarrow>
          (case operator_of_suffix (rev suffix_reversed) of
             None \<Rightarrow> None
           | Some op \<Rightarrow> Some (rev head_reversed, op)))"

text \<open>
  Modelled from the spec: the keyword-lookup parser, missing from the source files. A key
  is \<open>segment[__segment...][__op]\<close>. It is parsed right-to-left for the trailing operator,
  then left-to-right for the attribute and role segments; the operator is \<open>eq\<close> when no
  known operator suffix is present, and the whole key is then cut into segments, the
  final one being the attribute name.
\<close>

definition parse_lookup :: "string \<Rightarrow> 'v \<Rightarrow> 'v predicate" where
  "parse_lookup key v =
     (case trailing_operator key of
        Some (head, op) \<Rightarrow> \<lparr>pathSegments = split_dunder head, operator = op, operand = v\<rparr>
      | None \<Rightarrow> \<lparr>pathSegments = split_dunder key, operator = Eq, operand = v\<rparr>)"

text \<open>
  Modelled from the spec: the typed role-field expression
  \<open><RelationType>.<roleName>.<attributeName>.<op>(<typedOperand>)\<close>, missing from the source
  files. The accessor chain knows the relation, the role, the attribute and the value
  type the attribute resolves to; the operand is an attribute instance with its declared
  value type and its primitive value. The operator call checks the two value types and
  fails with \<open>TypeMismatchError\<close> when they differ; otherwise it yields the Predicate.
\<close>

record role_field =
  rf_relation :: string
  rf_role :: string
  rf_attribute :: string
  rf_value_type :: string

text \<open>
  Modelled from the spec: the typed operand of an operator call, such as \<open>Age(25)\<close>,
  missing from the source files.
\<close>

record 'v typed_operand =
  declared_value_type :: string
  primitive_value :: 'v

text \<open>
  Modelled from the spec: the operator call that ends a typed role-field expression,
  missing from the source files.
\<close>

definition role_field_op ::
  "role_field \<Rightarrow> operator \<Rightarrow> 'v typed_operand \<Rightarrow> py_exception + 'v predicate" where
  "role_field_op f op x =
     (if declared_value_type x \<noteq> rf_value_type f then Inl (Raised ''TypeMismatchError'' [])
      else Inr \<lparr>pathSegments = [rf_role f, rf_attribute f], operator = op,
                operand = primitive_value x\<rparr>)"

text \<open>
  Modelled from the spec: one entry of a filter call, missing from the source files: a
  keyword lookup (key and value) or a Predicate that a typed expression has built.
\<close>

datatype 'v filter_entry = Lookup string 'v | Expr "'v predicate"

text \<open>
  Modelled from the spec: the normalisation of one entry of a filter call to the
  Predicate shape, missing from the source files.
\<close>

fun normalize :: "'v filter_entry \<Rightarrow> 'v predicate" where
  "normalize (Lookup key v) = parse_lookup key v"
| "normalize (Expr p) = p"

text \<open>
  Modelled from the spec: the declaration of the relation type under query, as far as
  path resolution needs it, missing from the source files: the attribute fields the
  type owns (name and value type) and its roles, each with the attribute fields of its
  player type.
\<close>

record relation_type =
  rt_attributes :: "(string \<times> string) list"
  rt_roles :: "(string \<times> (string \<times> string) list) list"

text \<open>
  Modelled from the spec: a resolved predicate, missing from the source files. For a
  role-qualified path it names the role, the number of the fresh query variable bound to
  that role's player and the attribute qualified against the player type; for an
  unqualified path it has no role and no variable.
\<close>

record 'v fragment =
  fr_variable :: "nat option"
  fr_role :: "string option"
  fr_attribute :: string
  fr_operator :: operator
  fr_operand :: 'v

text \<open>
  Modelled from the spec: path resolution, missing from the source files. \<open>n\<close> is the
  number of the next fresh variable. An unknown role, an unknown attribute and a path
  of any other length (wrong arity) fail with \<open>SchemaError\<close>.
\<close>

definition resolve_predicate ::
  "relation_type \<Rightarrow> nat \<Rightarrow> 'v predicate \<Rightarrow> py_exception + 'v fragment \<times> nat" where
  "resolve_predicate rel n p =
     (case pathSegments p of
        [attribute] \<Rightarrow>
          (case map_of (rt_attributes rel) attribute of
             None \<Rightarrow> Inl (Raised ''SchemaError'' [])
           | Some value_type \<Rightarrow>
               Inr (\<lparr>fr_variable = None, fr_role = None, fr_attribute = attribute,
                      fr_operator = operator p, fr_operand = operand p\<rparr>, n))
      | [role, attribute] \<Rightarrow>
          (case map_of (rt_roles rel) role of
             None \<Rightarrow> Inl (Raised ''SchemaError'' [])
           | Some player_fields \<Rightarrow>
               (case map_of player_fields attribute of
                  None \<Rightarrow> Inl (Raised ''SchemaError'' [])
                | Some value_type \<Rightarrow>
                    Inr (\<lparr>fr_variable = Some n, fr_role = Some role, fr_attribute = attribute,
                           fr_operator = operator p, fr_operand = operand p\<rparr>, Suc n)))
      | _ \<Rightarrow> Inl (Raised ''SchemaError'' []))"

text \<open>
  Modelled from the spec: resolution of the predicate list in insertion order, with
  variables numbered in sequence, missing from the source files. The first failure
  ends it: no predicate is dropped.
\<close>

fun resolve_all ::
  "relation_type \<Rightarrow> nat \<Rightarrow> 'v predicate list \<Rightarrow> py_exception + 'v fragment list" where
  "resolve_all rel n [] = Inr []"
| "resolve_all rel n (p # ps) =
     (case resolve_predicate rel n p of
        Inl e \<Rightarrow> Inl e
      | Inr (fr, n') \<Rightarrow>
          (case resolve_all rel n' ps of
             Inl e \<Rightarrow> Inl e
           | Inr frs \<Rightarrow> Inr (fr # frs)))"

text \<open>
  Modelled from the spec: the compilation of one filter call on a relation type to query
  text, missing from the source files. Every entry is normalised to the Predicate shape,
  the predicates are resolved in insertion order, and the resolved list is written out.
  The specification leaves the text of a fragment to the database's query language, so
  the writer \<open>write\<close> is a parameter.
\<close>

definition compile_filter ::
  "relation_type \<Rightarrow> ('v fragment list \<Rightarrow> string) \<Rightarrow> 'v filter_entry list \<Rightarrow>
     py_exception + string" where
  "compile_filter rel write entries =
     (case resolve_all rel 0 (map normalize entries) of
        Inl e \<Rightarrow> Inl e
      | Inr frs \<Rightarrow> Inr (write frs))"

section \<open>Properties of the flag algebra\<close>

lemma foldl_Flag_step_is_key:
  "is_key (fst (foldl Flag_step s anns)) = (is_key (fst s) \<or> Key \<in> set anns)"
proof (induction anns arbitrary: s)
  case Nil
  then show ?case by simp
next
  case (Cons a anns)
  obtain f h where s: "s = (f, h)" by (cases s)
  show ?case using Cons.IH [of "Flag_step s a"] by (cases a) (auto simp: s)
qed

lemma foldl_Flag_step_is_unique:
  "is_unique (fst (foldl Flag_step s anns)) = (is_unique (fst s) \<or> Unique \<in> set anns)"
proof (induction anns arbitrary: s)
  case Nil
  then show ?case by simp
next
  case (Cons a anns)
  obtain f h where s: "s = (f, h)" by (cases s)
  show ?case using Cons.IH [of "Flag_step s a"] by (cases a) (auto simp: s)
qed

lemma foldl_Flag_step_has_card:
  "snd (foldl Flag_step s anns) = (snd s \<or> list_ex isinstance_Card anns)"
proof (induction anns arbitrary: s)
  case Nil
  then show ?case by simp
next
  case (Cons a anns)
  obtain f h where s: "s = (f, h)" by (cases s)
  show ?case using Cons.IH [of "Flag_step s a"] by (cases a) (auto simp: s)
qed

lemma foldl_Flag_step_no_Card:
  "\<not> list_ex isinstance_Card anns \<Longrightarrow>
   card_min (fst (foldl Flag_step s anns)) = card_min (fst s) \<and>
   card_max (fst (foldl Flag_step s anns)) = card_max (fst s) \<and>
   has_explicit_card (fst (foldl Flag_step s anns)) = has_explicit_card (fst s)"
proof (induction anns arbitrary: s)
  case Nil
  then show ?case by simp
next
  case (Cons a anns)
  obtain f h where s: "s = (f, h)" by (cases s)
  show ?case using Cons.IH [of "Flag_step s a"] Cons.prems by (cases a) (auto simp: s)
qed

lemma foldl_Flag_step_filter:
  "foldl Flag_step s (filter (\<lambda>a. a = Key \<or> a = Unique \<or> isinstance_Card a) anns) =
   foldl Flag_step s anns"
proof (induction anns arbitrary: s)
  case Nil
  then show ?case by simp
next
  case (Cons a anns)
  obtain f h where s: "s = (f, h)" by (cases s)
  show ?case using Cons.IH by (cases a) (simp_all add: s)
qed

lemma Flag_is_key: "is_key (Flag anns) = (Key \<in> set anns)"
proof -
  obtain f h where fh: "foldl Flag_step (AttributeFlags_default, False) anns = (f, h)"
    by (cases "foldl Flag_step (AttributeFlags_default, False) anns")
  have "is_key (fst (foldl Flag_step (AttributeFlags_default, False) anns)) = (Key \<in> set anns)"
    by (simp add: foldl_Flag_step_is_key AttributeFlags_default_def)
  then show ?thesis by (simp add: Flag_def fh)
qed

lemma Flag_is_unique: "is_unique (Flag anns) = (Unique \<in> set anns)"
proof -
  obtain f h where fh: "foldl Flag_step (AttributeFlags_default, False) anns = (f, h)"
    by (cases "foldl Flag_step (AttributeFlags_default, False) anns")
  have "is_unique (fst (foldl Flag_step (AttributeFlags_default, False) anns)) =
        (Unique \<in> set anns)"
    by (simp add: foldl_Flag_step_is_unique AttributeFlags_default_def)
  then show ?thesis by (simp add: Flag_def fh)
qed

lemma Flag_card_no_Card:
  assumes "\<not> list_ex isinstance_Card anns"
  shows "card_min (Flag anns) = (if Key \<in> set anns then Some 1 else None)"
    and "card_max (Flag anns) = (if Key \<in> set anns then Some 1 else None)"
proof -
  obtain f h where fh: "foldl Flag_step (AttributeFlags_default, False) anns = (f, h)"
    by (cases "foldl Flag_step (AttributeFlags_default, False) anns")
  have "is_key (fst (foldl Flag_step (AttributeFlags_default, False) anns)) = (Key \<in> set anns)"
    by (simp add: foldl_Flag_step_is_key AttributeFlags_default_def)
  then have k: "is_key f = (Key \<in> set anns)"
    by (simp add: fh)
  have h: "\<not> h"
    using foldl_Flag_step_has_card [of "(AttributeFlags_default, False)" anns] assms
    by (simp add: fh)
  have "card_min (fst (foldl Flag_step (AttributeFlags_default, False) anns)) = None \<and>
        card_max (fst (foldl Flag_step (AttributeFlags_default, False) anns)) = None"
    using foldl_Flag_step_no_Card [OF assms, of "(AttributeFlags_default, False)"]
    by (simp add: AttributeFlags_default_def)
  then have c: "card_min f = None \<and> card_max f = None"
    by (simp add: fh)
  show "card_min (Flag anns) = (if Key \<in> set anns then Some 1 else None)"
    using k h c by (simp add: Flag_def fh)
  show "card_max (Flag anns) = (if Key \<in> set anns then Some 1 else None)"
    using k h c by (simp add: Flag_def fh)
qed

lemma annotations_of_key:
  "is_key f \<Longrightarrow>
   to_typeql_annotations f = (if is_unique f then [''@key'', ''@unique''] else [''@key''])"
  by (simp add: to_typeql_annotations_def)

lemma annotations_without_card:
  "card_min f = None \<Longrightarrow> card_max f = None \<Longrightarrow>
   to_typeql_annotations f =
     (if is_key f then [''@key''] else []) @ (if is_unique f then [''@unique''] else [])"
  by (simp add: to_typeql_annotations_def)

lemma annotations_unique_default_card:
  "is_unique f \<Longrightarrow> card_min f = Some 1 \<Longrightarrow> card_max f = Some 1 \<Longrightarrow>
   to_typeql_annotations f = (if is_key f then [''@key'', ''@unique''] else [''@unique''])"
  by (simp add: to_typeql_annotations_def)

text \<open>
  Claim C4. For every field declared with the \<open>Key\<close> marker, whatever other arguments
  \<open>Flag\<close> receives (an explicit \<open>Card\<close> among them or not), the rendered annotation list
  includes \<open>@key\<close> and has no \<open>@card\<close> annotation: it is \<open>@key\<close> alone, or \<open>@key\<close> then
  \<open>@unique\<close> when \<open>Unique\<close> is given too. When no \<open>Card\<close> instance accompanies \<open>Key\<close>,
  the resolved cardinality is (1,1).
\<close>

theorem Flag_Key_never_card:
  assumes "Key \<in> set annotations"
  shows "to_typeql_annotations (Flag annotations) =
           (if Unique \<in> set annotations then [''@key'', ''@unique''] else [''@key'']) \<and>
         ''@key'' \<in> set (to_typeql_annotations (Flag annotations)) \<and>
         (\<forall>a \<in> set (to_typeql_annotations (Flag annotations)). take 5 a \<noteq> ''@card'') \<and>
         (\<not> list_ex isinstance_Card annotations \<longrightarrow>
            card_min (Flag annotations) = Some 1 \<and> card_max (Flag annotations) = Some 1)"
proof -
  have k: "is_key (Flag annotations)" using assms by (simp add: Flag_is_key)
  have eq: "to_typeql_annotations (Flag annotations) =
           (if Unique \<in> set annotations then [''@key'', ''@unique''] else [''@key''])"
    using annotations_of_key [OF k] by (simp add: Flag_is_unique)
  have c: "\<not> list_ex isinstance_Card annotations \<longrightarrow>
            card_min (Flag annotations) = Some 1 \<and> card_max (Flag annotations) = Some 1"
    using assms by (simp add: Flag_card_no_Card)
  show ?thesis using eq c by simp
qed

theorem Flag_Key_never_card_witness:
  "Key \<in> set [Key, CardInst \<lparr>Card_min = Some 1, Card_max = None\<rparr>] \<and>
   to_typeql_annotations (Flag [Key, CardInst \<lparr>Card_min = Some 1, Card_max = None\<rparr>]) = [''@key'']"
  using Flag_Key_never_card [of "[Key, CardInst \<lparr>Card_min = Some 1, Card_max = None\<rparr>]"]
  by simp

text \<open>
  Claim C2, as stated, at \<open>Flag(Unique)\<close>: the annotation list is \<open>@unique\<close> alone, but
  the resolved cardinality is not (1,1); \<open>card_min\<close> and \<open>card_max\<close> stay \<open>None\<close>, since
  \<open>Flag\<close> sets the default (1,1) for \<open>Key\<close> only.
\<close>

theorem Flag_Unique_card_counterexample:
  "\<not> (card_min (Flag [Unique]) = Some 1 \<and> card_max (Flag [Unique]) = Some 1 \<and>
      to_typeql_annotations (Flag [Unique]) = [''@unique''])"
  by (simp add: Flag_def AttributeFlags_default_def)

text \<open>
  Claim C2, amended. For every field declared with the \<open>Unique\<close> marker and no \<open>Card\<close>
  instance: without \<open>Key\<close>, \<open>card_min\<close> and \<open>card_max\<close> are left unset and the rendered
  annotation list is exactly \<open>@unique\<close>; with \<open>Key\<close>, the cardinality is (1,1) and the
  list is \<open>@key\<close>, \<open>@unique\<close>. No \<open>@card\<close> annotation is rendered in either case.
\<close>

theorem Flag_Unique_without_Card:
  assumes "Unique \<in> set annotations" and "\<not> list_ex isinstance_Card annotations"
  shows "(Key \<notin> set annotations \<longrightarrow>
            card_min (Flag annotations) = None \<and> card_max (Flag annotations) = None \<and>
            to_typeql_annotations (Flag annotations) = [''@unique'']) \<and>
         (Key \<in> set annotations \<longrightarrow>
            card_min (Flag annotations) = Some 1 \<and> card_max (Flag annotations) = Some 1 \<and>
            to_typeql_annotations (Flag annotations) = [''@key'', ''@unique''])"
proof -
  have u: "is_unique (Flag annotations)" using assms(1) by (simp add: Flag_is_unique)
  show ?thesis
  proof (cases "Key \<in> set annotations")
    case True
    then have k: "is_key (Flag annotations)" by (simp add: Flag_is_key)
    show ?thesis
      using True u annotations_of_key [OF k] Flag_card_no_Card [OF assms(2)] by simp
  next
    case False
    then have k: "\<not> is_key (Flag annotations)" by (simp add: Flag_is_key)
    have c: "card_min (Flag annotations) = None" "card_max (Flag annotations) = None"
      using False Flag_card_no_Card [OF assms(2)] by simp_all
    show ?thesis
      using False u k c annotations_without_card [OF c] by simp
  qed
qed

theorem Flag_Unique_without_Card_witness:
  "Unique \<in> set [Other ''doc'', Unique] \<and> \<not> list_ex isinstance_Card [Other ''doc'', Unique] \<and>
   card_min (Flag [Other ''doc'', Unique]) = None \<and>
   card_max (Flag [Other ''doc'', Unique]) = None \<and>
   to_typeql_annotations (Flag [Other ''doc'', Unique]) = [''@unique'']"
  using Flag_Unique_without_Card [of "[Other ''doc'', Unique]"] by simp

text \<open>
  Claim C5. \<open>Card(min=2)\<close> renders \<open>@card(2..)\<close>, \<open>Card(1, 5)\<close> renders \<open>@card(1..5)\<close>,
  and \<open>Card(max=5)\<close> gets \<open>min = 0\<close> and renders \<open>@card(0..5)\<close>.
\<close>

theorem Card_rendering:
  "map_sum id (\<lambda>c. to_typeql_annotations (Flag [CardInst c])) (Card_init [] (Some 2) None) =
     Inr [''@card(2..)''] \<and>
   map_sum id (\<lambda>c. to_typeql_annotations (Flag [CardInst c])) (Card_init [1, 5] None None) =
     Inr [''@card(1..5)''] \<and>
   Card_init [] None (Some 5) = Inr \<lparr>Card_min = Some 0, Card_max = Some 5\<rparr> \<and>
   map_sum id (\<lambda>c. to_typeql_annotations (Flag [CardInst c])) (Card_init [] None (Some 5)) =
     Inr [''@card(0..5)'']"
  by (simp add: Card_init_def Flag_def AttributeFlags_default_def to_typeql_annotations_def
      str_int_def)

theorem Card_rendering_witness:
  "to_typeql_annotations (Flag [CardInst \<lparr>Card_min = Some 0, Card_max = Some 5\<rparr>]) =
     [''@card(0..5)'']"
proof -
  have c: "Card_init [] None (Some 5) = Inr \<lparr>Card_min = Some 0, Card_max = Some 5\<rparr>"
    using Card_rendering by blast
  have "map_sum id (\<lambda>c. to_typeql_annotations (Flag [CardInst c])) (Card_init [] None (Some 5)) =
     Inr [''@card(0..5)'']"
    using Card_rendering by blast
  then show ?thesis unfolding c by simp
qed

text \<open>
  Claim C6. When \<open>is_unique\<close> is set and the cardinality is exactly (1,1), the rendered
  annotation list contains \<open>@unique\<close> and no \<open>@card\<close> annotation, also when the (1,1)
  comes from an explicit \<open>Card(1, 1)\<close>.
\<close>

theorem unique_card_1_1_omits_card:
  assumes "is_unique f" and "card_min f = Some 1" and "card_max f = Some 1"
  shows "''@unique'' \<in> set (to_typeql_annotations f) \<and>
         (\<forall>a \<in> set (to_typeql_annotations f). take 5 a \<noteq> ''@card'') \<and>
         to_typeql_annotations f = (if is_key f then [''@key'', ''@unique''] else [''@unique''])"
  using annotations_unique_default_card [OF assms] by simp

theorem unique_card_1_1_omits_card_witness:
  "Card_init [1, 1] None None = Inr \<lparr>Card_min = Some 1, Card_max = Some 1\<rparr> \<and>
   is_unique (Flag [Unique, CardInst \<lparr>Card_min = Some 1, Card_max = Some 1\<rparr>]) \<and>
   card_min (Flag [Unique, CardInst \<lparr>Card_min = Some 1, Card_max = Some 1\<rparr>]) = Some 1 \<and>
   card_max (Flag [Unique, CardInst \<lparr>Card_min = Some 1, Card_max = Some 1\<rparr>]) = Some 1 \<and>
   has_explicit_card (Flag [Unique, CardInst \<lparr>Card_min = Some 1, Card_max = Some 1\<rparr>]) \<and>
   to_typeql_annotations (Flag [Unique, CardInst \<lparr>Card_min = Some 1, Card_max = Some 1\<rparr>]) =
     [''@unique'']"
proof -
  let ?f = "Flag [Unique, CardInst \<lparr>Card_min = Some 1, Card_max = Some 1\<rparr>]"
  have f: "?f = \<lparr>is_key = False, is_unique = True, card_min = Some 1, card_max = Some 1,
                 has_explicit_card = True\<rparr>"
    by (simp add: Flag_def AttributeFlags_default_def)
  have c: "Card_init [1, 1] None None = Inr \<lparr>Card_min = Some 1, Card_max = Some 1\<rparr>"
    by (simp add: Card_init_def)
  have u: "is_unique ?f" and mn: "card_min ?f = Some 1" and mx: "card_max ?f = Some 1"
    by (simp_all add: f)
  show ?thesis
    using unique_card_1_1_omits_card [OF u mn mx] c by (simp add: f)
qed

text \<open>
  Claim C7. For every combination of flags the rendered list is: \<open>@key\<close> if \<open>is_key\<close>,
  then \<open>@unique\<close> if \<open>is_unique\<close>, then at most one further entry, which is a
  \<open>@card(...)\<close> annotation. Nothing else and no other order occurs.
\<close>

theorem annotations_order:
  "\<exists>card. to_typeql_annotations f =
            (if is_key f then [''@key''] else []) @
            (if is_unique f then [''@unique''] else []) @ card \<and>
          (card = [] \<or> (\<exists>body. card = [''@card('' @ body @ '')'']))"
proof (cases "(card_min f \<noteq> None \<or> card_max f \<noteq> None) \<and> \<not> is_key f \<and>
              \<not> (is_unique f \<and> card_min f = Some 1 \<and> card_max f = Some 1)")
  case False
  then have "to_typeql_annotations f =
            (if is_key f then [''@key''] else []) @
            (if is_unique f then [''@unique''] else []) @ []"
    by (auto simp: to_typeql_annotations_def)
  then show ?thesis by blast
next
  case True
  let ?m = "case card_min f of Some m \<Rightarrow> m | None \<Rightarrow> 0"
  let ?body = "case card_max f of Some mx \<Rightarrow> str_int ?m @ ''..'' @ str_int mx
                                | None \<Rightarrow> str_int ?m @ ''..''"
  from True have "to_typeql_annotations f =
            (if is_key f then [''@key''] else []) @
            (if is_unique f then [''@unique''] else []) @ [''@card('' @ ?body @ '')'']"
    by (auto simp: to_typeql_annotations_def split: option.splits)
  then show ?thesis by blast
qed

theorem annotations_order_witness:
  "to_typeql_annotations
     \<lparr>is_key = False, is_unique = True, card_min = Some 2, card_max = None,
      has_explicit_card = True\<rparr> = [''@unique'', ''@card(2..)'']"
proof -
  let ?f = "\<lparr>is_key = False, is_unique = True, card_min = Some 2, card_max = None,
             has_explicit_card = True\<rparr>"
  from annotations_order [of ?f] obtain card where
    "to_typeql_annotations ?f = [''@unique''] @ card" by auto
  moreover have "to_typeql_annotations ?f = [''@unique'', ''@card(2..)'']"
    by (simp add: to_typeql_annotations_def str_int_def)
  ultimately show ?thesis by simp
qed

section \<open>Properties of the \<open>Card\<close> constructor\<close>

text \<open>
  Claim C3, as stated, at \<open>Card(1, 2, 3)\<close>: the constructor fails, but the exception it
  raises is not a \<open>ConfigurationError\<close>.
\<close>

theorem Card_init_error_kind_counterexample:
  "\<not> raises (Card_init [1, 2, 3] None None) ''ConfigurationError''"
  by (simp add: Card_init_def)

text \<open>
  Claim C3, amended. Constructing a \<open>Card\<close> with more than two positional bounds fails
  inside the constructor with \<open>ValueError\<close> and the message
  \<open>Card accepts at most 2 positional arguments\<close>, whatever the keyword arguments are.
\<close>

theorem Card_init_too_many_positional:
  assumes "2 < length args"
  shows "Card_init args mn mx =
           Inl (Raised ''ValueError'' ''Card accepts at most 2 positional arguments'') \<and>
         raises (Card_init args mn mx) ''ValueError''"
proof -
  from assms have "args \<noteq> []" and "length args \<noteq> 1" and "length args \<noteq> 2"
    by auto
  then show ?thesis by (simp add: Card_init_def)
qed

theorem Card_init_too_many_positional_witness:
  "2 < length [1, 2, 3 :: int] \<and>
   Card_init [1, 2, 3] None (Some 7) =
     Inl (Raised ''ValueError'' ''Card accepts at most 2 positional arguments'')"
  using Card_init_too_many_positional [of "[1, 2, 3]" None "Some 7"] by simp

section \<open>Properties of the attribute classes\<close>

lemma get_attribute_name_init_subclass:
  "get_attribute_name (init_subclass cls) = str_lower (cls_name cls)"
  by (simp add: get_attribute_name_def init_subclass_def)

lemma cls_name_new_class: "cls_name (new_class parent name body) = name"
  by (simp add: new_class_def init_subclass_def)

text \<open>
  Claim C10. For every subclass of \<open>Attribute\<close>, whatever its parent class and whatever
  its body assigns, \<open>get_attribute_name()\<close> is the subclass's own class name lowercased:
  \<open>__init_subclass__\<close> sets \<open>_attr_name\<close> anew for each class, so the parent's name is
  never inherited.
\<close>

theorem get_attribute_name_own_class_name:
  "get_attribute_name (new_class parent name body) = str_lower name"
  by (simp add: new_class_def get_attribute_name_init_subclass)

theorem get_attribute_name_own_class_name_witness:
  "get_attribute_name String = ''string'' \<and>
   get_attribute_name (new_class String ''Name'' empty_body) = ''name''"
proof -
  have l1: "str_lower ''String'' = ''string''"
    by code_simp
  have l2: "str_lower ''Name'' = ''name''"
    by code_simp
  show ?thesis
    using get_attribute_name_own_class_name [of String "''Name''" empty_body]
      get_attribute_name_own_class_name
        [of Attribute "''String''" "empty_body\<lparr>body_value_type := Some ''string''\<rparr>"]
    by (simp add: l1 l2 String_def)
qed

text \<open>
  Claim C1, as stated, at a class \<open>Email(String)\<close> whose body sets
  \<open>_supertype = "id"\<close>: the source writes \<open>attribute email sub id, value string;\<close>, with
  no comma between the name and \<open>sub\<close>, where the grammar of the claim has
  \<open>attribute email, sub id, value string;\<close>.
\<close>

theorem to_schema_definition_comma_counterexample:
  "to_schema_definition
     (new_class String ''Email'' (empty_body\<lparr>body_supertype := Some (Some ''id'')\<rparr>)) \<noteq>
   Inr (spec_schemaText ''email'' (Some ''id'') ''string'' False)"
proof -
  have "str_lower ''Email'' = ''email''"
    by code_simp
  then show ?thesis
    by (simp add: to_schema_definition_def get_value_type_def get_attribute_name_def
        new_class_def init_subclass_def String_def empty_body_def Attribute_def
        spec_schemaText_def)
qed

text \<open>
  Claim C1, amended. For every attribute class that has a \<open>value_type\<close>, the schema
  definition is \<open>attribute <name>[ sub <supertype>], value <kind>[, abstract];\<close>
  character for character: the clause \<open> sub <supertype>\<close> follows the name after one
  space, without a comma, and is present iff \<open>_supertype\<close> is a non-empty string; the
  clause \<open>, abstract\<close> is present iff the abstract flag is set. A class without a
  supertype gets exactly the text of the specification's grammar.
\<close>

theorem to_schema_definition_text:
  assumes "cls_value_type cls = Some kind"
  shows "to_schema_definition cls =
           Inr (''attribute '' @ get_attribute_name cls @
                (case cls_supertype cls of
                   Some s \<Rightarrow> if s \<noteq> [] then '' sub '' @ s else []
                 | None \<Rightarrow> []) @
                '', value '' @ kind @
                (if cls_abstract cls then '', abstract'' else []) @ '';'') \<and>
         (cls_supertype cls = None \<longrightarrow>
            to_schema_definition cls =
              Inr (spec_schemaText (get_attribute_name cls) None kind (cls_abstract cls)))"
  using assms
  by (simp add: to_schema_definition_def get_value_type_def spec_schemaText_def
      split: option.splits)

theorem to_schema_definition_text_witness:
  "cls_value_type
     (new_class String ''Email''
        (empty_body\<lparr>body_supertype := Some (Some ''id''), body_abstract := Some True\<rparr>)) =
     Some ''string'' \<and>
   to_schema_definition
     (new_class String ''Email''
        (empty_body\<lparr>body_supertype := Some (Some ''id''), body_abstract := Some True\<rparr>)) =
     Inr ''attribute email sub id, value string, abstract;''"
proof -
  let ?c = "new_class String ''Email''
        (empty_body\<lparr>body_supertype := Some (Some ''id''), body_abstract := Some True\<rparr>)"
  have v: "cls_value_type ?c = Some ''string''"
    by (simp add: new_class_def init_subclass_def String_def empty_body_def)
  have s: "cls_supertype ?c = Some ''id''" and a: "cls_abstract ?c"
    by (simp_all add: new_class_def init_subclass_def empty_body_def)
  have "str_lower ''Email'' = ''email''"
    by code_simp
  then have n: "get_attribute_name ?c = ''email''"
    by (simp add: get_attribute_name_def new_class_def init_subclass_def)
  show ?thesis
    using to_schema_definition_text [OF v] by (simp add: v s a n)
qed

section \<open>Properties of \<open>Flag\<close> on arbitrary objects\<close>

lemma Flag_loop_Plain: "Flag_loop s (map Plain ms) = Inr (foldl Flag_step s ms)"
proof (induction ms arbitrary: s)
  case Nil
  then show ?case by simp
next
  case (Cons m ms)
  obtain f h where s: "s = (f, h)" by (cases s)
  show ?case using Cons.IH [of "Flag_step s m"] by (simp add: s)
qed

lemma Flag_objects_Plain: "Flag_objects (map Plain ms) = Inr (Flag ms)"
  by (simp add: Flag_objects_def Flag_def Flag_loop_Plain split: prod.splits)

lemma Flag_step_object_accepts:
  "(\<exists>s'. Flag_step_object s a = Inr s') = loop_accepts a"
proof -
  obtain f h where s: "s = (f, h)" by (cases s)
  show ?thesis
  proof (cases a)
    case (Plain m)
    then show ?thesis by (simp add: s)
  next
    case (CardLike rmin rmax)
    then show ?thesis by (cases rmin; cases rmax) (auto simp: s)
  next
    case (Opaque e)
    then show ?thesis by (simp add: s)
  qed
qed

lemma Flag_loop_accepts:
  "(\<exists>s'. Flag_loop s args = Inr s') = list_all loop_accepts args"
proof (induction args arbitrary: s)
  case Nil
  then show ?case by simp
next
  case (Cons a args)
  show ?case
  proof (cases "Flag_step_object s a")
    case (Inl e)
    with Flag_step_object_accepts [of s a] have "\<not> loop_accepts a" by simp
    with Inl show ?thesis by simp
  next
    case (Inr s1)
    with Flag_step_object_accepts [of s a] have "loop_accepts a" by auto
    with Inr Cons.IH [of s1] show ?thesis by simp
  qed
qed

lemma Flag_step_object_other: "is_other a \<Longrightarrow> Flag_step_object s a = Inr s"
proof -
  assume o: "is_other a"
  obtain f h where s: "s = (f, h)" by (cases s)
  from o obtain x where "a = Plain (Other x)"
    by (cases a rule: is_other.cases) simp_all
  then show ?thesis by (simp add: s)
qed

lemma Flag_loop_filter_other:
  "Flag_loop s (filter (\<lambda>a. \<not> is_other a) args) = Flag_loop s args"
proof (induction args arbitrary: s)
  case Nil
  then show ?case by simp
next
  case (Cons a args)
  show ?case
  proof (cases "is_other a")
    case True
    then show ?thesis using Cons.IH [of s] by (simp add: Flag_step_object_other)
  next
    case False
    then show ?thesis using Cons.IH by (simp split: sum.splits)
  qed
qed

lemma Flag_step_object_markers:
  assumes "Flag_step_object s a = Inr s'"
  shows "is_key (fst s') = (is_key (fst s) \<or> a = Plain Key)"
    and "is_unique (fst s') = (is_unique (fst s) \<or> a = Plain Unique)"
proof -
  obtain f h where s: "s = (f, h)" by (cases s)
  show "is_key (fst s') = (is_key (fst s) \<or> a = Plain Key)"
  proof (cases a)
    case (Plain m)
    with assms show ?thesis by (cases m) (auto simp: s)
  next
    case (CardLike rmin rmax)
    with assms show ?thesis by (cases rmin; cases rmax) (auto simp: s)
  next
    case (Opaque e)
    with assms show ?thesis by (simp add: s)
  qed
  show "is_unique (fst s') = (is_unique (fst s) \<or> a = Plain Unique)"
  proof (cases a)
    case (Plain m)
    with assms show ?thesis by (cases m) (auto simp: s)
  next
    case (CardLike rmin rmax)
    with assms show ?thesis by (cases rmin; cases rmax) (auto simp: s)
  next
    case (Opaque e)
    with assms show ?thesis by (simp add: s)
  qed
qed

lemma Flag_loop_markers:
  "Flag_loop s args = Inr s' \<Longrightarrow>
   is_key (fst s') = (is_key (fst s) \<or> Plain Key \<in> set args) \<and>
   is_unique (fst s') = (is_unique (fst s) \<or> Plain Unique \<in> set args)"
proof (induction args arbitrary: s)
  case Nil
  then show ?case by simp
next
  case (Cons a args)
  from Cons.prems obtain s1 where s1: "Flag_step_object s a = Inr s1"
    and rest: "Flag_loop s1 args = Inr s'"
    by (auto split: sum.splits)
  from Cons.IH [OF rest] Flag_step_object_markers [OF s1] show ?case by auto
qed

text \<open>
  Claim C9, as stated, at \<open>Flag(Bare())\<close> with \<open>class Bare(Card)\<close> whose \<open>__init__\<close> sets
  nothing: the object passes \<open>isinstance(ann, Card)\<close>, the read of \<open>ann.min\<close> raises
  \<open>AttributeError\<close>, and \<open>Flag\<close> raises it.
\<close>

theorem Flag_objects_raises_counterexample:
  "Flag_objects
     [CardLike
        (Inl (Raised ''AttributeError''
                ([CHR 0x27] @ ''Bare'' @ [CHR 0x27] @ '' object has no attribute '' @
                 [CHR 0x27] @ ''min'' @ [CHR 0x27])))
        (Inl (Raised ''AttributeError''
                ([CHR 0x27] @ ''Bare'' @ [CHR 0x27] @ '' object has no attribute '' @
                 [CHR 0x27] @ ''max'' @ [CHR 0x27])))] =
   Inl (Raised ''AttributeError''
          ([CHR 0x27] @ ''Bare'' @ [CHR 0x27] @ '' object has no attribute '' @
           [CHR 0x27] @ ''min'' @ [CHR 0x27]))"
  by (simp add: Flag_objects_def)

text \<open>
  Claim C9, amended. \<open>Flag\<close> returns flags, without raising, exactly when no argument
  makes the \<open>isinstance\<close> test raise and every argument that passes it yields its \<open>min\<close>
  and \<open>max\<close>; so it never raises on \<open>Key\<close>, \<open>Unique\<close>, \<open>Card\<close> instances built by the
  \<open>Card\<close> constructor and ordinary other objects, where it returns what \<open>Flag\<close> of the
  section above computes. An argument that is not \<open>Key\<close>, not \<open>Unique\<close> and not an instance
  of \<open>Card\<close> is ignored: dropping all such arguments changes neither the flags nor the
  exception. \<open>Flag()\<close> returns \<open>is_key = False\<close>, \<open>is_unique = False\<close> and no cardinality.
  The flags returned have \<open>is_key\<close> set iff \<open>Key\<close> is among the arguments, and \<open>is_unique\<close>
  iff \<open>Unique\<close> is.
\<close>

theorem Flag_objects_total_on_accepted:
  "((\<exists>flags. Flag_objects annotations = Inr flags) = list_all loop_accepts annotations) \<and>
   Flag_objects (map Plain markers) = Inr (Flag markers) \<and>
   Flag_objects (filter (\<lambda>a. \<not> is_other a) annotations) = Flag_objects annotations \<and>
   Flag_objects [] =
     Inr \<lparr>is_key = False, is_unique = False, card_min = None, card_max = None,
          has_explicit_card = False\<rparr> \<and>
   (\<forall>flags. Flag_objects annotations = Inr flags \<longrightarrow>
      is_key flags = (Plain Key \<in> set annotations) \<and>
      is_unique flags = (Plain Unique \<in> set annotations))"
proof -
  have a: "(\<exists>flags. Flag_objects annotations = Inr flags) = list_all loop_accepts annotations"
  proof -
    have x: "(\<exists>flags. Flag_objects annotations = Inr flags) =
          (\<exists>s'. Flag_loop (AttributeFlags_default, False) annotations = Inr s')"
      by (auto simp: Flag_objects_def split: sum.splits prod.splits)
    show ?thesis unfolding x by (rule Flag_loop_accepts)
  qed
  have b: "Flag_objects (filter (\<lambda>a. \<not> is_other a) annotations) = Flag_objects annotations"
    by (simp add: Flag_objects_def Flag_loop_filter_other)
  have c: "Flag_objects [] =
     Inr \<lparr>is_key = False, is_unique = False, card_min = None, card_max = None,
          has_explicit_card = False\<rparr>"
    by (simp add: Flag_objects_def AttributeFlags_default_def)
  have d: "is_key flags = (Plain Key \<in> set annotations) \<and>
           is_unique flags = (Plain Unique \<in> set annotations)"
    if r: "Flag_objects annotations = Inr flags" for flags
  proof -
    from r obtain f h where
      l: "Flag_loop (AttributeFlags_default, False) annotations = Inr (f, h)"
      and fl: "flags = (if is_key f \<and> \<not> h then f\<lparr>card_min := Some 1, card_max := Some 1\<rparr> else f)"
      by (auto simp: Flag_objects_def split: sum.splits prod.splits)
    from Flag_loop_markers [OF l] have
      "is_key f = (Plain Key \<in> set annotations)" "is_unique f = (Plain Unique \<in> set annotations)"
      by (simp_all add: AttributeFlags_default_def)
    then show ?thesis by (simp add: fl)
  qed
  show ?thesis using a b c d by (simp add: Flag_objects_Plain)
qed

theorem Flag_objects_total_on_accepted_witness:
  "list_all loop_accepts
     [Plain (Other ''x''), Plain Unique, CardLike (Inr (Some 2)) (Inr None), Plain (Other ''y'')] \<and>
   Flag_objects
     [Plain (Other ''x''), Plain Unique, CardLike (Inr (Some 2)) (Inr None), Plain (Other ''y'')] =
   Inr \<lparr>is_key = False, is_unique = True, card_min = Some 2, card_max = None,
        has_explicit_card = True\<rparr> \<and>
   Flag_objects [Plain Unique, CardLike (Inr (Some 2)) (Inr None)] =
   Flag_objects
     [Plain (Other ''x''), Plain Unique, CardLike (Inr (Some 2)) (Inr None), Plain (Other ''y'')]"
proof -
  let ?args = "[Plain (Other ''x''), Plain Unique, CardLike (Inr (Some 2)) (Inr None),
                Plain (Other ''y'')]"
  have v: "Flag_objects ?args =
     Inr \<lparr>is_key = False, is_unique = True, card_min = Some 2, card_max = None,
          has_explicit_card = True\<rparr>"
    by (simp add: Flag_objects_def AttributeFlags_default_def)
  have "Flag_objects (filter (\<lambda>a. \<not> is_other a) ?args) = Flag_objects ?args"
    using Flag_objects_total_on_accepted [of ?args "[]"] by blast
  then show ?thesis using v by simp
qed

section \<open>Properties of the two filter syntaxes\<close>

lemma split_dunder_from_no_dunder: "no_dunder s \<Longrightarrow> split_dunder_from cur s = [cur @ s]"
  by (induction cur s rule: split_dunder_from.induct) auto

lemma split_dunder_from_segment:
  "no_dunder (s @ ''_'') \<Longrightarrow>
   split_dunder_from cur (s @ ''__'' @ rest) = (cur @ s) # split_dunder_from [] rest"
  by (induction s arbitrary: cur rule: no_dunder.induct) auto

lemma cut_at_dunder_segment:
  "no_dunder (s @ ''_'') \<Longrightarrow> cut_at_dunder seen (s @ ''__'' @ rest) = Some (seen @ s, rest)"
  by (induction s arbitrary: seen rule: no_dunder.induct) auto

lemma rev_operator_name_no_dunder: "no_dunder (rev (operator_name op) @ ''_'')"
  by (cases op) simp_all

lemma operator_of_suffix_name: "operator_of_suffix (operator_name op) = Some op"
  by (cases op) (simp_all add: operator_of_suffix_def)

text \<open>
  A key that ends in a double underscore and an operator name has that operator as its
  trailing operator, whatever stands before.
\<close>

lemma trailing_operator_suffix:
  "trailing_operator (head @ ''__'' @ operator_name op) = Some (head, op)"
proof -
  have "rev (head @ ''__'' @ operator_name op) = rev (operator_name op) @ ''__'' @ rev head"
    by simp
  then have "cut_at_dunder [] (rev (head @ ''__'' @ operator_name op)) =
             Some (rev (operator_name op), rev head)"
    using cut_at_dunder_segment
        [where s = "rev (operator_name op)" and seen = "[]" and rest = "rev head",
         OF rev_operator_name_no_dunder]
    by simp
  then show ?thesis
    by (simp add: trailing_operator_def operator_of_suffix_name)
qed

lemma parse_lookup_operator_suffix:
  "parse_lookup (head @ ''__'' @ operator_name op) v =
     \<lparr>pathSegments = split_dunder head, operator = op, operand = v\<rparr>"
  by (simp only: parse_lookup_def trailing_operator_suffix option.case prod.case)

text \<open>
  Names that a key carries as they are: a role name with no double underscore inside
  and no underscore at its end, and an attribute name with no double underscore inside
  (it may end in an underscore).
\<close>

lemma split_dunder_role_attribute:
  assumes "no_dunder (r @ ''_'')" and "no_dunder a"
  shows "split_dunder (r @ ''__'' @ a) = [r, a]"
  using assms
  by (simp add: split_dunder_def split_dunder_from_segment split_dunder_from_no_dunder
      del: append_Cons)

lemma parse_lookup_examples:
  "parse_lookup ''employee__age__gt'' v =
     \<lparr>pathSegments = [''employee'', ''age''], operator = Gt, operand = v\<rparr> \<and>
   parse_lookup ''employee__type___gt'' v =
     \<lparr>pathSegments = [''employee'', ''type_''], operator = Gt, operand = v\<rparr> \<and>
   parse_lookup ''employee__type_'' v =
     \<lparr>pathSegments = [''employee'', ''type_''], operator = Eq, operand = v\<rparr> \<and>
   parse_lookup ''employee__age'' v =
     \<lparr>pathSegments = [''employee'', ''age''], operator = Eq, operand = v\<rparr>"
  by (simp add: parse_lookup_def trailing_operator_def operator_of_suffix_def split_dunder_def)

lemma compile_filter_role_path:
  assumes "normalize e = \<lparr>pathSegments = [r, a], operator = op, operand = v\<rparr>"
    and "map_of (rt_roles rel) r = Some player_fields"
    and "map_of player_fields a = Some value_type"
  shows "compile_filter rel write [e] =
           Inr (write [\<lparr>fr_variable = Some 0, fr_role = Some r, fr_attribute = a,
                         fr_operator = op, fr_operand = v\<rparr>])"
  using assms by (simp add: compile_filter_def resolve_predicate_def)

text \<open>
  Claim C8. Take a typed role-field expression \<open>Relation.role.attribute.op(operand)\<close>
  that builds a Predicate \<open>p\<close>, on a relation type that declares the role and, on its
  player type, the attribute; and take a path that a keyword-lookup key can express,
  that is, cutting \<open>role__attribute\<close> at its double underscores gives back the role and
  the attribute. Then the keyword lookup \<open>role__attribute__op = value\<close>, with the
  operand's primitive value, is parsed to the same Predicate \<open>p\<close> (path segments,
  operator, operand), and both surfaces compile, without error, to the same query text:
  the text of one fragment that binds variable 0 to the role's player and matches the
  attribute. With the operator \<open>eq\<close> the same holds for the key \<open>role__attribute\<close> whenever
  no known operator suffix is present in it.
\<close>

theorem lookup_and_role_field_expression_agree:
  assumes "role_field_op f op x = Inr p"
    and "split_dunder (rf_role f @ ''__'' @ rf_attribute f) = [rf_role f, rf_attribute f]"
    and "map_of (rt_roles rel) (rf_role f) = Some player_fields"
    and "map_of player_fields (rf_attribute f) = Some (rf_value_type f)"
  shows "parse_lookup (rf_role f @ ''__'' @ rf_attribute f @ ''__'' @ operator_name op)
           (primitive_value x) = p \<and>
         compile_filter rel write
           [Lookup (rf_role f @ ''__'' @ rf_attribute f @ ''__'' @ operator_name op)
              (primitive_value x)] =
           Inr (write [\<lparr>fr_variable = Some 0, fr_role = Some (rf_role f),
                         fr_attribute = rf_attribute f, fr_operator = op,
                         fr_operand = primitive_value x\<rparr>]) \<and>
         compile_filter rel write [Expr p] =
           Inr (write [\<lparr>fr_variable = Some 0, fr_role = Some (rf_role f),
                         fr_attribute = rf_attribute f, fr_operator = op,
                         fr_operand = primitive_value x\<rparr>]) \<and>
         (op = Eq \<and> trailing_operator (rf_role f @ ''__'' @ rf_attribute f) = None \<longrightarrow>
            parse_lookup (rf_role f @ ''__'' @ rf_attribute f) (primitive_value x) = p \<and>
            compile_filter rel write
              [Lookup (rf_role f @ ''__'' @ rf_attribute f) (primitive_value x)] =
            compile_filter rel write [Expr p])"
proof -
  let ?r = "rf_role f" and ?a = "rf_attribute f" and ?v = "primitive_value x"
  from assms(1) have p: "p = \<lparr>pathSegments = [?r, ?a], operator = op, operand = ?v\<rparr>"
    by (simp add: role_field_op_def split: if_splits)
  have "parse_lookup ((?r @ ''__'' @ ?a) @ ''__'' @ operator_name op) ?v =
          \<lparr>pathSegments = split_dunder (?r @ ''__'' @ ?a), operator = op, operand = ?v\<rparr>"
    by (rule parse_lookup_operator_suffix)
  then have k: "parse_lookup (?r @ ''__'' @ ?a @ ''__'' @ operator_name op) ?v = p"
    using assms(2) by (simp add: p)
  have c1: "compile_filter rel write
              [Lookup (?r @ ''__'' @ ?a @ ''__'' @ operator_name op) ?v] =
            Inr (write [\<lparr>fr_variable = Some 0, fr_role = Some ?r, fr_attribute = ?a,
                          fr_operator = op, fr_operand = ?v\<rparr>])"
  proof (rule compile_filter_role_path [OF _ assms(3,4)])
    show "normalize (Lookup (?r @ ''__'' @ ?a @ ''__'' @ operator_name op) ?v) =
          \<lparr>pathSegments = [?r, ?a], operator = op, operand = ?v\<rparr>"
      using k p by simp
  qed
  have c2: "compile_filter rel write [Expr p] =
            Inr (write [\<lparr>fr_variable = Some 0, fr_role = Some ?r, fr_attribute = ?a,
                          fr_operator = op, fr_operand = ?v\<rparr>])"
  proof (rule compile_filter_role_path [OF _ assms(3,4)])
    show "normalize (Expr p) = \<lparr>pathSegments = [?r, ?a], operator = op, operand = ?v\<rparr>"
      using p by simp
  qed
  have d: "parse_lookup (?r @ ''__'' @ ?a) ?v = p"
    if "op = Eq" and "trailing_operator (?r @ ''__'' @ ?a) = None"
    using that assms(2) by (simp add: parse_lookup_def p)
  have e: "compile_filter rel write [Lookup (?r @ ''__'' @ ?a) ?v] =
           compile_filter rel write [Expr p]"
    if "op = Eq" and "trailing_operator (?r @ ''__'' @ ?a) = None"
    using d [OF that] by (simp add: compile_filter_def)
  show ?thesis using k c1 c2 d e by blast
qed

theorem lookup_and_role_field_expression_agree_witness:
  "role_field_op
     \<lparr>rf_relation = ''Employment'', rf_role = ''employee'', rf_attribute = ''age'',
      rf_value_type = ''integer''\<rparr> Gt
     \<lparr>declared_value_type = ''integer'', primitive_value = 25 :: int\<rparr> =
     Inr \<lparr>pathSegments = [''employee'', ''age''], operator = Gt, operand = 25\<rparr> \<and>
   split_dunder ''employee__age'' = [''employee'', ''age''] \<and>
   parse_lookup ''employee__age__gt'' (25 :: int) =
     \<lparr>pathSegments = [''employee'', ''age''], operator = Gt, operand = 25\<rparr> \<and>
   compile_filter
     \<lparr>rt_attributes = [(''position'', ''string''), (''salary'', ''integer'')],
      rt_roles =
        [(''employee'', [(''name'', ''string''), (''age'', ''integer''), (''city'', ''string'')]),
         (''employer'', [(''name'', ''string''), (''industry'', ''string'')])]\<rparr>
     (\<lambda>frs. concat (map (\<lambda>fr. fr_attribute fr @ '' '' @ operator_name (fr_operator fr)) frs))
     [Lookup ''employee__age__gt'' (25 :: int)] = Inr ''age gt''"
proof -
  let ?f = "\<lparr>rf_relation = ''Employment'', rf_role = ''employee'', rf_attribute = ''age'',
      rf_value_type = ''integer''\<rparr>"
  let ?x = "\<lparr>declared_value_type = ''integer'', primitive_value = 25 :: int\<rparr>"
  let ?p = "\<lparr>pathSegments = [''employee'', ''age''], operator = Gt, operand = 25 :: int\<rparr>"
  let ?fields = "[(''name'', ''string''), (''age'', ''integer''), (''city'', ''string'')]"
  let ?rel = "\<lparr>rt_attributes = [(''position'', ''string''), (''salary'', ''integer'')],
      rt_roles =
        [(''employee'', ?fields),
         (''employer'', [(''name'', ''string''), (''industry'', ''string'')])]\<rparr>"
  have e: "role_field_op ?f Gt ?x = Inr ?p"
    by (simp add: role_field_op_def)
  have s: "split_dunder (rf_role ?f @ ''__'' @ rf_attribute ?f) = [rf_role ?f, rf_attribute ?f]"
    by (simp add: split_dunder_def)
  have r: "map_of (rt_roles ?rel) (rf_role ?f) = Some ?fields"
    by simp
  have a: "map_of ?fields (rf_attribute ?f) = Some (rf_value_type ?f)"
    by simp
  show ?thesis
    using lookup_and_role_field_expression_agree [OF e s r a,
        of "\<lambda>frs. concat (map (\<lambda>fr. fr_attribute fr @ '' '' @ operator_name (fr_operator fr)) frs)"]
      e s
    by simp
qed

end
